theory Spec2Isabelle
  imports Main "HOL-Library.Multiset" "HOL-Library.List_Lexorder"
begin

section \<open>Python strings and the runtime\<close>

text \<open>
  A Python \<open>str\<close> is a sequence of Unicode code points; \<open>len\<close> counts code points.
  A literal of the source is written \<open>str ''...''\<close>; the dashes and bullet glyphs of the
  source are given by their code point.
\<close>

type_synonym cp = nat
type_synonym pystr = "cp list"

definition str :: "string \<Rightarrow> pystr" where
  "str s = map of_char s"

text \<open>
  What the program takes from the Python runtime and does not define itself: the case
  mappings and the character classes \<open>\d\<close> and \<open>\w\<close> of the Unicode database outside
  ASCII, and the order in which a \<open>set\<close> of strings is iterated (it follows the string
  hashes, which change from one process to the next). On ASCII the functions below are
  written out; everything else is read from the runtime.
\<close>

record runtime =
  uc_lower :: "pystr \<Rightarrow> pystr"
  uc_upper :: "pystr \<Rightarrow> pystr"
  uc_digit :: "cp \<Rightarrow> bool"
  uc_word :: "cp \<Rightarrow> bool"
  set_iter :: "pystr list \<Rightarrow> pystr list"

definition ascii :: "pystr \<Rightarrow> bool" where
  "ascii s = list_all (\<lambda>c. c < 128) s"

definition ascii_lower :: "cp \<Rightarrow> cp" where
  "ascii_lower c = (if 65 \<le> c \<and> c \<le> 90 then c + 32 else c)"

definition ascii_upper :: "cp \<Rightarrow> cp" where
  "ascii_upper c = (if 97 \<le> c \<and> c \<le> 122 then c - 32 else c)"

definition str_lower :: "runtime \<Rightarrow> pystr \<Rightarrow> pystr" where
  "str_lower R s = (if ascii s then map ascii_lower s else uc_lower R s)"

definition str_upper :: "runtime \<Rightarrow> pystr \<Rightarrow> pystr" where
  "str_upper R s = (if ascii s then map ascii_upper s else uc_upper R s)"

text \<open>\<open>str.isspace\<close>, which is also the class \<open>\s\<close> of \<open>re\<close> on \<open>str\<close> patterns.\<close>

definition isspace :: "cp \<Rightarrow> bool" where
  "isspace c \<longleftrightarrow> (9 \<le> c \<and> c \<le> 13) \<or> (28 \<le> c \<and> c \<le> 32) \<or> c = 133 \<or> c = 160
     \<or> c = 5760 \<or> (8192 \<le> c \<and> c \<le> 8202) \<or> c = 8232 \<or> c = 8233 \<or> c = 8239
     \<or> c = 8287 \<or> c = 12288"

definition str_strip :: "pystr \<Rightarrow> pystr" where
  "str_strip s = rev (dropWhile isspace (rev (dropWhile isspace s)))"

definition is_linebreak :: "cp \<Rightarrow> bool" where
  "is_linebreak c \<longleftrightarrow> (10 \<le> c \<and> c \<le> 13) \<or> (28 \<le> c \<and> c \<le> 30) \<or> c = 133
     \<or> c = 8232 \<or> c = 8233"

text \<open>\<open>str.splitlines()\<close>: \<open>cur\<close> is the line being read, reversed.\<close>

fun splitlines_from :: "pystr \<Rightarrow> pystr \<Rightarrow> pystr list" where
  "splitlines_from cur [] = (if cur = [] then [] else [rev cur])"
| "splitlines_from cur (c # cs) =
     (if is_linebreak c
      then rev cur # (case cs of
                        d # ds \<Rightarrow> if c = 13 \<and> d = 10 then splitlines_from [] ds
                                  else splitlines_from [] cs
                      | [] \<Rightarrow> splitlines_from [] cs)
      else splitlines_from (c # cur) cs)"

definition splitlines :: "pystr \<Rightarrow> pystr list" where
  "splitlines s = splitlines_from [] s"

definition is_digit :: "runtime \<Rightarrow> cp \<Rightarrow> bool" where
  "is_digit R c = (if c < 128 then 48 \<le> c \<and> c \<le> 57 else uc_digit R c)"

definition is_word :: "runtime \<Rightarrow> cp \<Rightarrow> bool" where
  "is_word R c = (if c < 128
     then (48 \<le> c \<and> c \<le> 57) \<or> (65 \<le> c \<and> c \<le> 90) \<or> (97 \<le> c \<and> c \<le> 122) \<or> c = 95
     else uc_word R c)"

definition is_upper_AZ :: "cp \<Rightarrow> bool" where
  "is_upper_AZ c \<longleftrightarrow> 65 \<le> c \<and> c \<le> 90"

definition is_alpha_AZaz :: "cp \<Rightarrow> bool" where
  "is_alpha_AZaz c \<longleftrightarrow> (65 \<le> c \<and> c \<le> 90) \<or> (97 \<le> c \<and> c \<le> 122)"

text \<open>
  A character \<open>x\<close> of the text against the ASCII pattern character \<open>p\<close> under
  \<open>re.IGNORECASE\<close>: the two cases of a letter, and the four non-ASCII letters that
  \<open>re\<close> counts as case variants of \<open>i\<close>, \<open>k\<close> and \<open>s\<close>.
\<close>

definition ci_match :: "cp \<Rightarrow> cp \<Rightarrow> bool" where
  "ci_match p x \<longleftrightarrow> x = p \<or>
     (is_alpha_AZaz p \<and>
        (ascii_lower x = ascii_lower p
         \<or> (ascii_lower p = 105 \<and> (x = 304 \<or> x = 305))
         \<or> (ascii_lower p = 107 \<and> x = 8490)
         \<or> (ascii_lower p = 115 \<and> x = 383)))"

definition ci_alpha :: "cp \<Rightarrow> bool" where
  "ci_alpha c \<longleftrightarrow> is_alpha_AZaz c \<or> c = 304 \<or> c = 305 \<or> c = 383 \<or> c = 8490"

section \<open>Regular expressions\<close>

text \<open>
  The patterns of the source are written as terms of \<open>rx\<close> and run by a backtracking
  matcher that tries alternatives from left to right and takes greedy repetitions
  longest first (lazy ones shortest first), as \<open>re\<close> does. Every repetition of the source
  is over a single character class. A matcher state is the text before the position
  (reversed), the text after it, and the groups captured so far.
\<close>

type_synonym caps = "(string \<times> pystr) list"
type_synonym rstate = "pystr \<times> pystr \<times> caps"

datatype rx =
    Atom "cp \<Rightarrow> bool"
  | Eps
  | Seq rx rx
  | Alt rx rx
  | Star "cp \<Rightarrow> bool"
  | LazyStar "cp \<Rightarrow> bool"
  | Group string rx
  | Bos
  | Bol
  | Eol
  | EndZ
  | WordB "cp \<Rightarrow> bool"

fun star_greedy ::
  "(cp \<Rightarrow> bool) \<Rightarrow> (rstate \<Rightarrow> rstate option) \<Rightarrow> pystr \<Rightarrow> pystr \<Rightarrow> caps \<Rightarrow> rstate option" where
  "star_greedy p k pre [] g = k (pre, [], g)"
| "star_greedy p k pre (c # cs) g =
     (if p c
      then (case star_greedy p k (c # pre) cs g of
              Some r \<Rightarrow> Some r
            | None \<Rightarrow> k (pre, c # cs, g))
      else k (pre, c # cs, g))"

fun star_lazy ::
  "(cp \<Rightarrow> bool) \<Rightarrow> (rstate \<Rightarrow> rstate option) \<Rightarrow> pystr \<Rightarrow> pystr \<Rightarrow> caps \<Rightarrow> rstate option" where
  "star_lazy p k pre [] g = k (pre, [], g)"
| "star_lazy p k pre (c # cs) g =
     (case k (pre, c # cs, g) of
        Some r \<Rightarrow> Some r
      | None \<Rightarrow> if p c then star_lazy p k (c # pre) cs g else None)"

text \<open>\<open>\b\<close>: exactly one of the characters on the two sides is a word character.\<close>

definition at_boundary :: "(cp \<Rightarrow> bool) \<Rightarrow> pystr \<Rightarrow> pystr \<Rightarrow> bool" where
  "at_boundary w pre s \<longleftrightarrow>
     (case pre of [] \<Rightarrow> False | a # _ \<Rightarrow> w a) \<noteq> (case s of [] \<Rightarrow> False | b # _ \<Rightarrow> w b)"

text \<open>
  \<open>Bos\<close> is \<open>^\<close> and \<open>EndZ\<close> is \<open>$\<close> without \<open>re.MULTILINE\<close>; \<open>Bol\<close> and \<open>Eol\<close> are
  \<open>^\<close> and \<open>$\<close> with it.
\<close>

primrec rmatch :: "rx \<Rightarrow> rstate \<Rightarrow> (rstate \<Rightarrow> rstate option) \<Rightarrow> rstate option" where
  "rmatch (Atom p) st k =
     (case st of (pre, s, g) \<Rightarrow>
        (case s of [] \<Rightarrow> None | c # cs \<Rightarrow> if p c then k (c # pre, cs, g) else None))"
| "rmatch Eps st k = k st"
| "rmatch (Seq a b) st k = rmatch a st (\<lambda>st'. rmatch b st' k)"
| "rmatch (Alt a b) st k = (case rmatch a st k of Some r \<Rightarrow> Some r | None \<Rightarrow> rmatch b st k)"
| "rmatch (Star p) st k = (case st of (pre, s, g) \<Rightarrow> star_greedy p k pre s g)"
| "rmatch (LazyStar p) st k = (case st of (pre, s, g) \<Rightarrow> star_lazy p k pre s g)"
| "rmatch (Group n a) st k =
     rmatch a st (\<lambda>st'. case st' of (pre', s', g') \<Rightarrow>
        k (pre', s', (n, rev (take (length pre' - length (fst st)) pre')) # g'))"
| "rmatch Bos st k = (case st of (pre, s, g) \<Rightarrow> if pre = [] then k st else None)"
| "rmatch Bol st k =
     (case st of (pre, s, g) \<Rightarrow>
        if (case pre of [] \<Rightarrow> True | a # _ \<Rightarrow> a = 10) then k st else None)"
| "rmatch Eol st k =
     (case st of (pre, s, g) \<Rightarrow>
        if (case s of [] \<Rightarrow> True | b # _ \<Rightarrow> b = 10) then k st else None)"
| "rmatch EndZ st k = (case st of (pre, s, g) \<Rightarrow> if s = [] \<or> s = [10] then k st else None)"
| "rmatch (WordB w) st k =
     (case st of (pre, s, g) \<Rightarrow> if at_boundary w pre s then k st else None)"

record rmatch_result =
  m_start :: nat
  m_end :: nat
  m_group0 :: pystr
  m_groups :: caps

text \<open>One attempt at a fixed position; the result comes with the text after the match.\<close>

definition match_at :: "rx \<Rightarrow> pystr \<Rightarrow> pystr \<Rightarrow> (rmatch_result \<times> pystr) option" where
  "match_at r pre s =
     (case rmatch r (pre, s, []) Some of
        None \<Rightarrow> None
      | Some (pre', s', g) \<Rightarrow>
          Some (\<lparr>m_start = length pre, m_end = length pre',
                 m_group0 = rev (take (length pre' - length pre) pre'), m_groups = g\<rparr>, s'))"

fun search_from :: "rx \<Rightarrow> pystr \<Rightarrow> pystr \<Rightarrow> rmatch_result option" where
  "search_from r pre [] = map_option fst (match_at r pre [])"
| "search_from r pre (c # cs) =
     (case match_at r pre (c # cs) of
        Some (m, _) \<Rightarrow> Some m
      | None \<Rightarrow> search_from r (c # pre) cs)"

definition re_search :: "rx \<Rightarrow> pystr \<Rightarrow> rmatch_result option" where
  "re_search r s = search_from r [] s"

definition m_group :: "rmatch_result \<Rightarrow> string \<Rightarrow> pystr" where
  "m_group m n = (case map_of (m_groups m) n of Some t \<Rightarrow> t | None \<Rightarrow> [])"

text \<open>
  \<open>re.finditer\<close>: the matches from left to right, each search starting where the last
  match ended (\<open>skip\<close> characters further on). No pattern of the source matches the
  empty string.
\<close>

fun finditer_from :: "rx \<Rightarrow> nat \<Rightarrow> pystr \<Rightarrow> pystr \<Rightarrow> rmatch_result list" where
  "finditer_from r skip pre [] =
     (if skip = 0 then (case match_at r pre [] of Some (m, _) \<Rightarrow> [m] | None \<Rightarrow> []) else [])"
| "finditer_from r skip pre (c # cs) =
     (if 0 < skip then finditer_from r (skip - 1) (c # pre) cs
      else (case match_at r pre (c # cs) of
              Some (m, _) \<Rightarrow> m # finditer_from r (m_end m - m_start m - 1) (c # pre) cs
            | None \<Rightarrow> finditer_from r 0 (c # pre) cs))"

definition re_finditer :: "rx \<Rightarrow> pystr \<Rightarrow> rmatch_result list" where
  "re_finditer r s = finditer_from r 0 [] s"

definition re_findall :: "rx \<Rightarrow> pystr \<Rightarrow> pystr list" where
  "re_findall r s = map m_group0 (re_finditer r s)"

fun sub_from :: "rmatch_result list \<Rightarrow> nat \<Rightarrow> pystr \<Rightarrow> pystr \<Rightarrow> pystr" where
  "sub_from [] pos repl s = drop pos s"
| "sub_from (m # ms) pos repl s =
     take (m_start m - pos) (drop pos s) @ repl @ sub_from ms (m_end m) repl s"

definition re_sub :: "rx \<Rightarrow> pystr \<Rightarrow> pystr \<Rightarrow> pystr" where
  "re_sub r repl s = sub_from (re_finditer r s) 0 repl s"

definition opt :: "rx \<Rightarrow> rx" where
  "opt r = Alt r Eps"

definition seqs :: "rx list \<Rightarrow> rx" where
  "seqs rs = foldr Seq rs Eps"

fun alts :: "rx list \<Rightarrow> rx" where
  "alts [] = Atom (\<lambda>c. False)"
| "alts [r] = r"
| "alts (r # rs) = Alt r (alts rs)"

definition chr :: "cp \<Rightarrow> rx" where
  "chr c = Atom (\<lambda>x. x = c)"

definition lit :: "pystr \<Rightarrow> rx" where
  "lit s = seqs (map chr s)"

definition ilit :: "pystr \<Rightarrow> rx" where
  "ilit s = seqs (map (\<lambda>c. Atom (ci_match c)) s)"

definition many1 :: "(cp \<Rightarrow> bool) \<Rightarrow> rx" where
  "many1 p = Seq (Atom p) (Star p)"

section \<open>Python sets and dicts\<close>

text \<open>
  A \<open>set\<close> of strings is held as the list of its elements without repetition, in the
  order they were added; iterating it (a \<open>for\<close> loop, \<open>list\<close>, \<open>sorted\<close>) goes through
  \<open>set_iter\<close> of the runtime. A \<open>dict\<close> is an association list in insertion order,
  which is the order Python iterates it in.
\<close>

definition set_add :: "pystr \<Rightarrow> pystr list \<Rightarrow> pystr list" where
  "set_add x xs = (if x \<in> set xs then xs else xs @ [x])"

fun dict_set :: "pystr \<Rightarrow> 'v \<Rightarrow> (pystr \<times> 'v) list \<Rightarrow> (pystr \<times> 'v) list" where
  "dict_set k v [] = [(k, v)]"
| "dict_set k v ((k', v') # kvs) =
     (if k' = k then (k, v) # kvs else (k', v') # dict_set k v kvs)"

definition dict_get :: "(pystr \<times> 'v) list \<Rightarrow> pystr \<Rightarrow> 'v \<Rightarrow> 'v" where
  "dict_get d k dflt = (case map_of d k of Some v \<Rightarrow> v | None \<Rightarrow> dflt)"

text \<open>\<open>sorted(xs, key=len, reverse=True)\<close>: stable, longest first.\<close>

definition sorted_len_desc :: "pystr list \<Rightarrow> pystr list" where
  "sorted_len_desc xs = sort_key (\<lambda>x. - int (length x)) xs"

section \<open>Curated dictionaries\<close>

definition SKILL_ALIASES :: "(pystr \<times> pystr) list" where
  "SKILL_ALIASES =
    [(str ''js'', str ''JavaScript''),
     (str ''ts'', str ''TypeScript''),
     (str ''py'', str ''Python''),
     (str ''nodejs'', str ''Node.js''),
     (str ''reactjs'', str ''React''),
     (str ''react.js'', str ''React''),
     (str ''node'', str ''Node.js''),
     (str ''postgres'', str ''PostgreSQL''),
     (str ''aws'', str ''AWS''),
     (str ''gcp'', str ''Google Cloud''),
     (str ''ms sql'', str ''SQL Server''),
     (str ''sql server'', str ''SQL Server'')]"

definition SKILL_TAXONOMY :: "(pystr \<times> pystr list) list" where
  "SKILL_TAXONOMY =
    [(str ''Programming Languages'',
        map str [''Java'', ''Python'', ''JavaScript'', ''TypeScript'', ''C++'', ''C#'', ''Go'',
                 ''Ruby'', ''PHP'', ''Rust'', ''Kotlin'']),
     (str ''Frameworks & Libraries'',
        map str [''Spring Boot'', ''Spring'', ''React'', ''Angular'', ''Vue'', ''Django'',
                 ''Flask'', ''Express'', ''FastAPI'', ''Hibernate'', ''.NET'']),
     (str ''Databases'',
        map str [''PostgreSQL'', ''MySQL'', ''MongoDB'', ''Redis'', ''Elasticsearch'', ''SQLite'',
                 ''Oracle'', ''SQL Server'']),
     (str ''Cloud & DevOps'',
        map str [''AWS'', ''Azure'', ''Google Cloud'', ''GCP'', ''Docker'', ''Kubernetes'',
                 ''Terraform'', ''Jenkins'', ''GitHub Actions'']),
     (str ''Data Science'',
        map str [''TensorFlow'', ''PyTorch'', ''scikit-learn'', ''NumPy'', ''Pandas'']),
     (str ''Tools'',
        map str [''Git'', ''Maven'', ''Gradle'', ''Jira''])]"

definition JOB_TITLES :: "pystr list" where
  "JOB_TITLES = map str
    [''Software Engineer'', ''Senior Software Engineer'', ''Backend Developer'',
     ''Frontend Developer'', ''Full Stack Developer'', ''Data Scientist'',
     ''Machine Learning Engineer'', ''DevOps Engineer'', ''SRE'', ''QA Engineer'',
     ''Android Developer'', ''iOS Developer'']"

definition ORG_SUFFIXES :: "pystr list" where
  "ORG_SUFFIXES = map str
    [''Inc'', ''Ltd'', ''LLC'', ''Pvt'', ''Technologies'', ''Labs'', ''Systems'', ''Solutions'',
     ''Corp'', ''Company'']"

definition SKILL_STOPWORDS :: "pystr list" where
  "SKILL_STOPWORDS = map str
    [''intern'', ''junior'', ''senior'', ''fresher'', ''trainee'', ''lead'', ''manager'',
     ''associate'']"

section \<open>Helpers\<close>

definition norm_keep :: "cp \<Rightarrow> bool" where
  "norm_keep c \<longleftrightarrow> (97 \<le> c \<and> c \<le> 122) \<or> (48 \<le> c \<and> c \<le> 57) \<or> c = 43 \<or> c = 46 \<or> c = 35"

definition normalize_text :: "runtime \<Rightarrow> pystr \<Rightarrow> pystr" where
  "normalize_text R text =
     (let lowered = str_lower R text
      in str '' '' @ re_sub (many1 (\<lambda>c. \<not> norm_keep c)) (str '' '') lowered @ str '' '')"

definition canonical_skill :: "runtime \<Rightarrow> pystr \<Rightarrow> pystr" where
  "canonical_skill R token =
     (let t = str_strip token; key = str_lower R t in
      case map_of SKILL_ALIASES key of
        Some v \<Rightarrow> v
      | None \<Rightarrow>
          if key \<in> {str ''node'', str ''nodejs''} then str ''Node.js''
          else if key \<in> {str ''reactjs'', str ''react.js''} then str ''React''
          else if key = str ''postgres'' then str ''PostgreSQL''
          else if str_upper R t \<in> {str ''AWS'', str ''GCP''} then str_upper R t
          else if str_lower R t \<in> {str ''c++'', str ''c#'', str ''.net''} then t
          else str_upper R (take 1 t) @ drop 1 t)"

definition email_local :: "cp \<Rightarrow> bool" where
  "email_local c \<longleftrightarrow> is_alpha_AZaz c \<or> (48 \<le> c \<and> c \<le> 57) \<or> c \<in> {46, 95, 37, 43, 45}"

definition email_domain :: "cp \<Rightarrow> bool" where
  "email_domain c \<longleftrightarrow> is_alpha_AZaz c \<or> (48 \<le> c \<and> c \<le> 57) \<or> c = 46 \<or> c = 45"

definition email_re :: rx where
  "email_re = seqs [many1 email_local, chr 64, many1 email_domain, chr 46,
                    Atom is_alpha_AZaz, Atom is_alpha_AZaz, Star is_alpha_AZaz]"

definition extract_email_regex :: "pystr \<Rightarrow> pystr" where
  "extract_email_regex text =
     (case re_search email_re text of Some m \<Rightarrow> m_group0 m | None \<Rightarrow> [])"

definition phone_sep :: "cp \<Rightarrow> bool" where
  "phone_sep c \<longleftrightarrow> isspace c \<or> c = 45"

text \<open>\<open>(?:(?:\+?\d{1,3}[\s-]?)?(?:\(?\d{3}\)?[\s-]?)?\d{3}[\s-]?\d{4})\<close>\<close>

definition phone_re :: "runtime \<Rightarrow> rx" where
  "phone_re R =
     (let d = Atom (is_digit R); sep = opt (Atom phone_sep) in
      seqs [opt (seqs [opt (chr 43), d, opt (Seq d (opt d)), sep]),
            opt (seqs [opt (chr 40), d, d, d, opt (chr 41), sep]),
            d, d, d, sep, d, d, d, d])"

text \<open>\<open>Mobile[:\s]*(\d{10})\<close> with \<open>re.IGNORECASE\<close>\<close>

definition mobile_re :: "runtime \<Rightarrow> rx" where
  "mobile_re R =
     (let d = Atom (is_digit R) in
      seqs [ilit (str ''Mobile''), Star (\<lambda>c. c = 58 \<or> isspace c),
            Group ''1'' (seqs [d, d, d, d, d, d, d, d, d, d])])"

definition extract_phone_number :: "runtime \<Rightarrow> pystr \<Rightarrow> pystr" where
  "extract_phone_number R text =
     (case re_search (phone_re R) text of
        None \<Rightarrow>
          (case re_search (mobile_re R) text of
             Some m \<Rightarrow> m_group m ''1''
           | None \<Rightarrow> [])
      | Some m \<Rightarrow>
          (let raw = m_group0 m;
               cleaned = re_sub (Atom (\<lambda>c. \<not> (is_digit R c \<or> c = 43))) [] raw
           in cleaned))"

section \<open>The spaCy collaborator\<close>

text \<open>
  The pipeline \<open>nlp\<close> and the token matcher \<open>EXPERIENCE_MATCHER\<close> are spaCy objects built
  at start-up from files outside the repository. The program reads from a \<open>Doc\<close> its
  entities (text and label), its tokens (text and the flag \<open>like_email\<close>) and, for each
  match of \<open>EXPERIENCE_MATCHER\<close>, the entities of the matched span. A call of \<open>nlp\<close> may
  raise; that is the value \<open>None\<close>.
\<close>

record ent =
  e_text :: pystr
  e_label :: pystr

record doc =
  d_ents :: "ent list"
  d_tokens :: "(pystr \<times> bool) list"

record spacy =
  nlp :: "pystr \<Rightarrow> doc option"
  EXPERIENCE_MATCHER :: "doc \<Rightarrow> ent list list"

datatype exn = CollaboratorError | AttributeError

fun extract_email_spacy :: "doc \<Rightarrow> pystr" where
  "extract_email_spacy d =
     (case filter snd (d_tokens d) of [] \<Rightarrow> [] | (t, _) # _ \<Rightarrow> t)"

definition extract_name_ml :: "doc \<Rightarrow> pystr" where
  "extract_name_ml d =
     (case filter (\<lambda>e. e_label e = str ''PERSON'') (d_ents d) of [] \<Rightarrow> [] | e # _ \<Rightarrow> e_text e)"

section \<open>Name, skill, title and organization extractors\<close>

text \<open>\<open>^\s*(?:name)\s*[:\-]\s*(.+)$\<close> with \<open>re.IGNORECASE\<close>\<close>

definition name_re :: rx where
  "name_re = seqs [Bos, Star isspace, ilit (str ''name''), Star isspace,
                   Atom (\<lambda>c. c = 58 \<or> c = 45), Star isspace,
                   Group ''1'' (many1 (\<lambda>c. c \<noteq> 10)), EndZ]"

fun name_label_loop :: "pystr list \<Rightarrow> pystr option" where
  "name_label_loop [] = None"
| "name_label_loop (line # lines) =
     (case re_search name_re (str_strip line) of
        Some m \<Rightarrow> Some (str_strip (m_group m ''1''))
      | None \<Rightarrow> name_label_loop lines)"

definition first_upper :: "pystr \<Rightarrow> bool" where
  "first_upper w = (case w of [] \<Rightarrow> False | c # _ \<Rightarrow> is_upper_AZ c)"

fun name_words_loop :: "pystr list \<Rightarrow> pystr option" where
  "name_words_loop [] = None"
| "name_words_loop (line # lines) =
     (case re_findall (many1 is_alpha_AZaz) line of
        w0 # w1 # _ \<Rightarrow>
          if first_upper w0 \<and> first_upper w1
             \<and> 3 \<le> length w0 \<and> length w0 \<le> 20 \<and> 3 \<le> length w1 \<and> length w1 \<le> 20
          then Some (w0 @ str '' '' @ w1)
          else name_words_loop lines
      | _ \<Rightarrow> name_words_loop lines)"

definition extract_name_fallback :: "pystr \<Rightarrow> pystr" where
  "extract_name_fallback text =
     (case name_label_loop (take 10 (splitlines text)) of
        Some n \<Rightarrow> n
      | None \<Rightarrow>
          (case name_words_loop (take 10 (splitlines text)) of
             Some n \<Rightarrow> n
           | None \<Rightarrow> []))"

text \<open>\<open>\b\<close> + \<open>re.escape(k)\<close> + \<open>\b\<close>\<close>

definition word_re :: "runtime \<Rightarrow> pystr \<Rightarrow> rx" where
  "word_re R k = seqs [WordB (is_word R), lit k, WordB (is_word R)]"

definition found_in :: "runtime \<Rightarrow> pystr \<Rightarrow> pystr \<Rightarrow> bool" where
  "found_in R k norm \<longleftrightarrow> re_search (word_re R k) norm \<noteq> None"

definition extract_skills_dict :: "runtime \<Rightarrow> pystr \<Rightarrow> pystr list" where
  "extract_skills_dict R text =
     (let norm = normalize_text R text;
          found1 = foldl (\<lambda>found (cat, keywords).
                      foldl (\<lambda>found kw.
                               if found_in R (str_lower R kw) norm
                               then set_add (canonical_skill R kw) found else found)
                            found (set_iter R keywords))
                    [] SKILL_TAXONOMY;
          found2 = foldl (\<lambda>found (alias, canonical).
                      if found_in R alias norm
                      then set_add (canonical_skill R canonical) found else found)
                    found1 SKILL_ALIASES
      in filter (\<lambda>s. str_lower R s \<notin> set SKILL_STOPWORDS) (set_iter R found2))"

definition extract_job_titles_dict :: "runtime \<Rightarrow> pystr \<Rightarrow> pystr list" where
  "extract_job_titles_dict R text =
     (let norm = normalize_text R text
      in foldl (\<lambda>found title.
                  if found_in R (str_lower R title) norm then set_add title found else found)
               [] (set_iter R JOB_TITLES))"

definition org_char :: "cp \<Rightarrow> bool" where
  "org_char c \<longleftrightarrow> is_alpha_AZaz c \<or> (48 \<le> c \<and> c \<le> 57) \<or> c \<in> {38, 46, 44, 45, 32}"

text \<open>\<open>(?:\b[A-Z][A-Za-z0-9&.,\- ]+?)\s+(?:Inc|Ltd|...)\b\<close>\<close>

definition suffix_pattern :: "runtime \<Rightarrow> rx" where
  "suffix_pattern R =
     seqs [WordB (is_word R), Atom is_upper_AZ, Atom org_char, LazyStar org_char,
           many1 isspace, alts (map lit ORG_SUFFIXES), WordB (is_word R)]"

definition extract_orgs_dict :: "runtime \<Rightarrow> pystr \<Rightarrow> pystr list" where
  "extract_orgs_dict R text =
     foldl (\<lambda>found m. set_add (str_strip (m_group0 m)) found) []
           (re_finditer (suffix_pattern R) text)"

fun entities_loop ::
  "runtime \<Rightarrow> ent list \<Rightarrow> pystr list \<times> pystr list \<times> pystr list
     \<Rightarrow> pystr list \<times> pystr list \<times> pystr list" where
  "entities_loop R [] acc = acc"
| "entities_loop R (e # es) (skills, titles, orgs) =
     (if e_label e = str ''SKILL''
      then (let s = canonical_skill R (e_text e) in
            if str_lower R s \<notin> set SKILL_STOPWORDS
            then entities_loop R es (set_add s skills, titles, orgs)
            else entities_loop R es (skills, titles, orgs))
      else if e_label e = str ''JOB_TITLE''
      then entities_loop R es (skills, set_add (e_text e) titles, orgs)
      else if e_label e \<in> {str ''ORG'', str ''ORGANIZATION''}
      then entities_loop R es (skills, titles, set_add (e_text e) orgs)
      else entities_loop R es (skills, titles, orgs))"

definition extract_entities_ml :: "runtime \<Rightarrow> doc \<Rightarrow> pystr list \<times> pystr list \<times> pystr list" where
  "extract_entities_ml R d = entities_loop R (d_ents d) ([], [], [])"

text \<open>
  \<open>merge_sets\<close>: the union of the trimmed elements, then \<open>sorted(list(merged), key=lower)\<close>.
  \<open>sorted\<close> is stable: elements with the same key stay in the order \<open>list(merged)\<close>
  gave them.
\<close>

definition merge_sets :: "runtime \<Rightarrow> pystr list list \<Rightarrow> pystr list" where
  "merge_sets R sets =
     (let merged = foldl (\<lambda>merged s.
                      foldl (\<lambda>merged item. set_add (str_strip item) merged) merged (set_iter R s))
                    [] sets
      in sort_key (str_lower R) (set_iter R merged))"

section \<open>Sectioning\<close>

definition SECTION_SYNONYMS :: "(pystr \<times> pystr list) list" where
  "SECTION_SYNONYMS =
    [(str ''experience'',
        map str [''experience'', ''work experience'', ''professional experience'',
                 ''employment history'', ''career history'', ''work history'', ''employment'',
                 ''work profile'']),
     (str ''education'',
        map str [''education'', ''educational background'', ''academic background'',
                 ''qualifications'', ''academics'']),
     (str ''projects'',
        map str [''projects'', ''project experience'', ''personal projects'',
                 ''academic projects'']),
     (str ''skills'',
        map str [''skills'', ''technical skills'', ''skills & tools'', ''skills and tools'',
                 ''technologies'', ''tech stack'', ''core competencies'', ''key skills'']),
     (str ''certifications'',
        map str [''certifications'', ''certificates'', ''licenses'', ''licences'']),
     (str ''summary'',
        map str [''summary'', ''professional summary'', ''profile'', ''about me'',
                 ''objective''])]"

text \<open>The synonyms are ASCII literals, so \<open>s.lower()\<close> is the ASCII lower case.\<close>

definition CANONICAL_BY_SYNONYM :: "(pystr \<times> pystr) list" where
  "CANONICAL_BY_SYNONYM =
     foldl (\<lambda>d (canon, syns). foldl (\<lambda>d s. dict_set (map ascii_lower s) canon d) d syns)
           [] SECTION_SYNONYMS"

definition HEADING_WORDS :: "pystr list" where
  "HEADING_WORDS = sorted_len_desc (map fst CANONICAL_BY_SYNONYM)"

text \<open>\<open>^\s*(?P<head>...)\s*:?\s*$\<close> with \<open>re.IGNORECASE | re.MULTILINE\<close>\<close>

definition HEADING_PATTERN :: rx where
  "HEADING_PATTERN =
     seqs [Bol, Star isspace, Group ''head'' (alts (map ilit HEADING_WORDS)),
           Star isspace, opt (chr 58), Star isspace, Eol]"

definition slice :: "pystr \<Rightarrow> nat \<Rightarrow> nat \<Rightarrow> pystr" where
  "slice s a b = take (b - a) (drop a s)"

fun sections_loop ::
  "runtime \<Rightarrow> pystr \<Rightarrow> rmatch_result list \<Rightarrow> (pystr \<times> pystr) list \<Rightarrow> (pystr \<times> pystr) list" where
  "sections_loop R text [] sections = sections"
| "sections_loop R text (m # ms) sections =
     (let raw_head = str_lower R (str_strip (m_group m ''head''));
          canon = dict_get CANONICAL_BY_SYNONYM raw_head raw_head;
          start = m_end m;
          stop = (case ms of m' # _ \<Rightarrow> m_start m' | [] \<Rightarrow> length text);
          content = str_strip (slice text start stop)
      in sections_loop R text ms
           (if content \<noteq> []
            then (let prev = dict_get sections canon []
                  in dict_set canon
                       (if prev \<noteq> [] then str_strip (prev @ [10, 10] @ content) else content)
                       sections)
            else sections))"

definition split_resume_sections :: "runtime \<Rightarrow> pystr \<Rightarrow> (pystr \<times> pystr) list" where
  "split_resume_sections R text =
     (if text = [] then []
      else (let matches = re_finditer HEADING_PATTERN text
            in if matches = [] then [(str ''summary'', str_strip text)]
               else sections_loop R text matches []))"

section \<open>Experience extraction\<close>

definition month_names :: "pystr list" where
  "month_names = map str [''Jan'', ''Feb'', ''Mar'', ''Apr'', ''May'', ''Jun'', ''Jul'', ''Aug'',
                          ''Sep'', ''Sept'', ''Oct'', ''Nov'', ''Dec'']"

definition year4 :: "runtime \<Rightarrow> rx" where
  "year4 R = (let d = Atom (is_digit R) in seqs [d, d, d, d])"

definition month_year :: "runtime \<Rightarrow> rx" where
  "month_year R =
     seqs [alts (map ilit month_names), Star ci_alpha, many1 isspace,
           year4 R]"


text \<open>
  \<open>DATE_RANGE_REGEX\<close>, with \<open>re.IGNORECASE\<close>; 8211 and 8212 are the en dash and the
  em dash.
\<close>

definition date_start :: "runtime \<Rightarrow> rx" where
  "date_start R = Alt (month_year R) (year4 R)"

definition date_sep :: rx where
  "date_sep = alts [chr 45, chr 8211, chr 8212, ilit (str ''to''), ilit (str ''through''),
                    ilit (str ''until'')]"

definition date_end :: "runtime \<Rightarrow> rx" where
  "date_end R = alts [ilit (str ''Present''), ilit (str ''Current''), ilit (str ''Now''),
                      ilit (str ''Till date''), ilit (str ''Until now''),
                      month_year R, year4 R]"

definition DATE_RANGE_REGEX :: "runtime \<Rightarrow> rx" where
  "DATE_RANGE_REGEX R =
     seqs [Group ''start'' (date_start R), Star isspace, date_sep, Star isspace,
           Group ''end'' (date_end R)]"

definition bullet :: "cp \<Rightarrow> bool" where
  "bullet c \<longleftrightarrow> c \<in> {45, 8226, 8227, 9702, 8259, 8729, 42}"

definition clean_line :: "pystr \<Rightarrow> pystr" where
  "clean_line line =
     (let line1 = re_sub (seqs [Bos, many1 bullet, Star isspace]) [] line
      in str_strip (re_sub (many1 isspace) (str '' '') line1))"

fun max_by_len :: "ent \<Rightarrow> ent list \<Rightarrow> ent" where
  "max_by_len best [] = best"
| "max_by_len best (s # ss) =
     max_by_len (if length (e_text best) < length (e_text s) then s else best) ss"

definition pick_longest :: "ent list \<Rightarrow> pystr option" where
  "pick_longest spans =
     (case spans of [] \<Rightarrow> None | s # ss \<Rightarrow> Some (str_strip (e_text (max_by_len s ss))))"

definition date_texts :: "doc \<Rightarrow> pystr list" where
  "date_texts d = map e_text (filter (\<lambda>e. e_label e = str ''DATE'') (d_ents d))"

definition detect_date_range :: "runtime \<Rightarrow> pystr \<Rightarrow> doc \<Rightarrow> pystr" where
  "detect_date_range R text d =
     (case re_search (DATE_RANGE_REGEX R) text of
        Some m \<Rightarrow> m_group m ''start'' @ str '' - '' @ m_group m ''end''
      | None \<Rightarrow>
          (let dates = date_texts d
           in case dates of
                d0 # d1 # _ \<Rightarrow> d0 @ str '' - '' @ d1
              | [d0] \<Rightarrow> d0
              | [] \<Rightarrow> []))"

record entry =
  job_title :: pystr
  company_name :: pystr
  date_range :: pystr

definition str_join :: "pystr \<Rightarrow> pystr list \<Rightarrow> pystr" where
  "str_join sep xs = (case xs of [] \<Rightarrow> [] | y # ys \<Rightarrow> y @ concat (map (\<lambda>z. sep @ z) ys))"

definition join_block :: "pystr list \<Rightarrow> pystr" where
  "join_block buf = str_join (str '' '') (map clean_line (filter (\<lambda>x. str_strip x \<noteq> []) buf))"

text \<open>The loop over \<open>raw_lines\<close> that cuts the section into blocks at empty lines.\<close>

fun blocks_loop :: "pystr list \<Rightarrow> pystr list \<Rightarrow> pystr list" where
  "blocks_loop buf [] = (if buf \<noteq> [] then [join_block buf] else [])"
| "blocks_loop buf (raw # raws) =
     (let line = str_strip raw in
      if line = []
      then (if buf \<noteq> [] then join_block buf # blocks_loop [] raws else blocks_loop buf raws)
      else blocks_loop (buf @ [line]) raws)"

text \<open>An \<open>Optional[str]\<close> is true when it is a non-empty string.\<close>

definition truthy :: "pystr option \<Rightarrow> bool" where
  "truthy x = (case x of None \<Rightarrow> False | Some t \<Rightarrow> t \<noteq> [])"

definition or_empty :: "pystr option \<Rightarrow> pystr" where
  "or_empty x = (case x of None \<Rightarrow> [] | Some t \<Rightarrow> t)"

definition is_title :: "ent \<Rightarrow> bool" where
  "is_title e \<longleftrightarrow> e_label e = str ''JOB_TITLE''"

definition is_org :: "ent \<Rightarrow> bool" where
  "is_org e \<longleftrightarrow> e_label e \<in> {str ''ORG'', str ''ORGANIZATION''}"

text \<open>The loop over the matcher's matches, with its \<open>break\<close>.\<close>

fun matcher_loop ::
  "ent list list \<Rightarrow> pystr option \<Rightarrow> pystr option \<Rightarrow> pystr option \<times> pystr option" where
  "matcher_loop [] title_text org_text = (title_text, org_text)"
| "matcher_loop (span_ents # rest) title_text org_text =
     (let cand_title = pick_longest (filter is_title span_ents);
          cand_org = pick_longest (filter is_org span_ents);
          title_text' = (if truthy cand_title \<and> \<not> truthy title_text then cand_title
                         else title_text);
          org_text' = (if truthy cand_org \<and> \<not> truthy org_text then cand_org else org_text)
      in if truthy title_text' \<and> truthy org_text' then (title_text', org_text')
         else matcher_loop rest title_text' org_text')"

text \<open>The body of the loop over the blocks, for a block that \<open>nlp\<close> has read.\<close>

definition block_entry :: "runtime \<Rightarrow> spacy \<Rightarrow> pystr \<Rightarrow> doc \<Rightarrow> entry list" where
  "block_entry R S block d =
     (let (title0, org0) = matcher_loop (EXPERIENCE_MATCHER S d) None None;
          title1 = (if \<not> truthy title0 then pick_longest (filter is_title (d_ents d))
                    else title0);
          org1 = (if \<not> truthy org0 then pick_longest (filter is_org (d_ents d)) else org0);
          title2 = (if \<not> truthy title1
                    then (let dict_titles = extract_job_titles_dict R block
                          in if dict_titles \<noteq> []
                             then Some (hd (sorted_len_desc (set_iter R dict_titles)))
                             else title1)
                    else title1);
          org2 = (if \<not> truthy org1
                  then (let dict_orgs = extract_orgs_dict R block
                        in if dict_orgs \<noteq> []
                           then Some (hd (sorted_len_desc (set_iter R dict_orgs)))
                           else org1)
                  else org1);
          dr = detect_date_range R block d
      in if truthy title2 \<or> truthy org2 \<or> dr \<noteq> []
         then [\<lparr>job_title = or_empty title2, company_name = or_empty org2, date_range = dr\<rparr>]
         else [])"

fun results_loop :: "runtime \<Rightarrow> spacy \<Rightarrow> pystr list \<Rightarrow> exn + entry list" where
  "results_loop R S [] = Inr []"
| "results_loop R S (block # blocks) =
     (if block = [] \<or> length block < 5 then results_loop R S blocks
      else (case nlp S block of
              None \<Rightarrow> Inl CollaboratorError
            | Some d \<Rightarrow>
                (case results_loop R S blocks of
                   Inl e \<Rightarrow> Inl e
                 | Inr results \<Rightarrow> Inr (block_entry R S block d @ results))))"

definition same_entry :: "runtime \<Rightarrow> entry \<Rightarrow> entry \<Rightarrow> bool" where
  "same_entry R prev item \<longleftrightarrow>
     str_lower R (job_title prev) = str_lower R (job_title item)
     \<and> str_lower R (company_name prev) = str_lower R (company_name item)
     \<and> str_lower R (date_range prev) = str_lower R (date_range item)"

definition any_value :: "entry \<Rightarrow> bool" where
  "any_value item \<longleftrightarrow> job_title item \<noteq> [] \<or> company_name item \<noteq> [] \<or> date_range item \<noteq> []"

fun dedup_loop :: "runtime \<Rightarrow> entry option \<Rightarrow> entry list \<Rightarrow> entry list" where
  "dedup_loop R prev [] = []"
| "dedup_loop R prev (item # items) =
     (if \<not> any_value item then dedup_loop R prev items
      else if (case prev of None \<Rightarrow> False | Some p \<Rightarrow> same_entry R p item)
      then dedup_loop R prev items
      else item # dedup_loop R (Some item) items)"

definition extract_experience :: "runtime \<Rightarrow> spacy \<Rightarrow> pystr \<Rightarrow> exn + entry list" where
  "extract_experience R S experience_text =
     (if experience_text = [] then Inr []
      else (let blocks = blocks_loop [] (splitlines experience_text)
            in case results_loop R S blocks of
                 Inl e \<Rightarrow> Inl e
               | Inr results \<Rightarrow> Inr (dedup_loop R None results)))"

section \<open>The request handler\<close>

datatype json = JNull | JBool bool | JNum int | JStr pystr | JArr "json list"
  | JObj "(pystr \<times> json) list"

fun json_truthy :: "json \<Rightarrow> bool" where
  "json_truthy JNull = False"
| "json_truthy (JBool b) = b"
| "json_truthy (JNum n) = (n \<noteq> 0)"
| "json_truthy (JStr s) = (s \<noteq> [])"
| "json_truthy (JArr xs) = (xs \<noteq> [])"
| "json_truthy (JObj kvs) = (kvs \<noteq> [])"

record config =
  HYBRID_USE_ML :: bool
  ML_AVAILABLE :: bool
  ENTITY_RULER :: bool

record extraction =
  fullName :: pystr
  email :: pystr
  phoneNumber :: pystr
  skills :: "pystr list"
  jobTitles :: "pystr list"
  organizations :: "pystr list"
  experiences :: "entry list"
  projects :: "pystr list"

datatype response = Ok200 extraction | Invalid400 | ParsingError500 exn

text \<open>
  The \<open>SKILL\<close> entities of the entity ruler, read inside a \<open>try\<close> whose \<open>except\<close> passes.
\<close>

definition ruler_skills_of :: "runtime \<Rightarrow> spacy \<Rightarrow> config \<Rightarrow> pystr \<Rightarrow> pystr list" where
  "ruler_skills_of R S cfg text =
     (if ENTITY_RULER cfg
      then (case nlp S text of
              None \<Rightarrow> []
            | Some doc_r \<Rightarrow> fst (extract_entities_ml R (doc_r\<lparr>d_ents :=
                               filter (\<lambda>e. e_label e = str ''SKILL'') (d_ents doc_r)\<rparr>)))
      else [])"

text \<open>The handler after validation: \<open>text\<close> is a string with a non-blank character.\<close>

definition parse_text :: "runtime \<Rightarrow> spacy \<Rightarrow> config \<Rightarrow> pystr \<Rightarrow> response" where
  "parse_text R S cfg text =
     (case nlp S text of
        None \<Rightarrow> ParsingError500 CollaboratorError
      | Some d \<Rightarrow>
          (let sections = split_resume_sections R text;
               experience_text = dict_get sections (str ''experience'') []
           in case extract_experience R S experience_text of
                Inl e \<Rightarrow> ParsingError500 e
              | Inr experiences_struct \<Rightarrow>
                  (let use_ml = HYBRID_USE_ML cfg \<and> ML_AVAILABLE cfg;
                       ml_fullname = (if use_ml then extract_name_ml d else []);
                       (ml_skills, ml_titles, ml_orgs) =
                          (if use_ml then extract_entities_ml R d else ([], [], []));
                       ruler_skills = ruler_skills_of R S cfg text;
                       rb_fullname = extract_name_fallback text;
                       rb_email = extract_email_regex text;
                       rb_phone = extract_phone_number R text;
                       rb_skills = extract_skills_dict R text;
                       rb_titles = extract_job_titles_dict R text;
                       rb_orgs = extract_orgs_dict R text;
                       spacy_email = extract_email_spacy d
                   in Ok200
                        \<lparr>fullName = (if ml_fullname \<noteq> [] then ml_fullname else rb_fullname),
                         email = (if spacy_email \<noteq> [] then spacy_email else rb_email),
                         phoneNumber = rb_phone,
                         skills = merge_sets R [ml_skills, rb_skills, ruler_skills],
                         jobTitles = merge_sets R [ml_titles, rb_titles],
                         organizations = merge_sets R [rb_orgs, ml_orgs],
                         experiences = experiences_struct,
                         projects = []\<rparr>)))"

text \<open>
  \<open>parse_resume\<close>: \<open>body\<close> is what \<open>request.get_json(silent=True)\<close> returns, \<open>None\<close> when
  the request has no JSON body; \<open>request_data\<close> is \<open>request.get_json(silent=True) or {}\<close>.
  \<open>data.get\<close> on a body that is not an object raises \<open>AttributeError\<close>, which the
  handler's \<open>except\<close> turns into the 500 response.
\<close>

definition request_data :: "json option \<Rightarrow> json" where
  "request_data body =
     (case body of None \<Rightarrow> JObj [] | Some j \<Rightarrow> if json_truthy j then j else JObj [])"

definition parse_resume :: "runtime \<Rightarrow> spacy \<Rightarrow> config \<Rightarrow> json option \<Rightarrow> response" where
  "parse_resume R S cfg body =
     (let data = request_data body
      in case data of
           JObj kvs \<Rightarrow>
             (case dict_get kvs (str ''text'') (JStr []) of
                JStr text \<Rightarrow>
                  if str_strip text = [] then Invalid400 else parse_text R S cfg text
              | _ \<Rightarrow> Invalid400)
         | _ \<Rightarrow> ParsingError500 AttributeError)"

section \<open>What a pattern accepts\<close>

text \<open>
  \<open>accepts r pre u v g g'\<close>: the pattern \<open>r\<close> matches the text \<open>u\<close> found between
  \<open>pre\<close> (reversed) and \<open>v\<close>, and extends the captured groups \<open>g\<close> to \<open>g'\<close>. The
  matcher is sound and complete for it.
\<close>

primrec accepts :: "rx \<Rightarrow> pystr \<Rightarrow> pystr \<Rightarrow> pystr \<Rightarrow> caps \<Rightarrow> caps \<Rightarrow> bool" where
  "accepts (Atom p) pre u v g g' \<longleftrightarrow> (\<exists>c. u = [c] \<and> p c) \<and> g' = g"
| "accepts Eps pre u v g g' \<longleftrightarrow> u = [] \<and> g' = g"
| "accepts (Seq a b) pre u v g g' \<longleftrightarrow>
     (\<exists>u1 u2 g1. u = u1 @ u2 \<and> accepts a pre u1 (u2 @ v) g g1 \<and> accepts b (rev u1 @ pre) u2 v g1 g')"
| "accepts (Alt a b) pre u v g g' \<longleftrightarrow> accepts a pre u v g g' \<or> accepts b pre u v g g'"
| "accepts (Star p) pre u v g g' \<longleftrightarrow> list_all p u \<and> g' = g"
| "accepts (LazyStar p) pre u v g g' \<longleftrightarrow> list_all p u \<and> g' = g"
| "accepts (Group n a) pre u v g g' \<longleftrightarrow> (\<exists>g1. accepts a pre u v g g1 \<and> g' = (n, u) # g1)"
| "accepts Bos pre u v g g' \<longleftrightarrow> u = [] \<and> g' = g \<and> pre = []"
| "accepts Bol pre u v g g' \<longleftrightarrow> u = [] \<and> g' = g \<and> (case pre of [] \<Rightarrow> True | a # _ \<Rightarrow> a = 10)"
| "accepts Eol pre u v g g' \<longleftrightarrow> u = [] \<and> g' = g \<and> (case v of [] \<Rightarrow> True | b # _ \<Rightarrow> b = 10)"
| "accepts EndZ pre u v g g' \<longleftrightarrow> u = [] \<and> g' = g \<and> (v = [] \<or> v = [10])"
| "accepts (WordB w) pre u v g g' \<longleftrightarrow> u = [] \<and> g' = g \<and> at_boundary w pre v"

text \<open>A pattern without capturing groups.\<close>

primrec groupless :: "rx \<Rightarrow> bool" where
  "groupless (Atom p) = True"
| "groupless Eps = True"
| "groupless (Seq a b) = (groupless a \<and> groupless b)"
| "groupless (Alt a b) = (groupless a \<and> groupless b)"
| "groupless (Star p) = True"
| "groupless (LazyStar p) = True"
| "groupless (Group n a) = False"
| "groupless Bos = True"
| "groupless Bol = True"
| "groupless Eol = True"
| "groupless EndZ = True"
| "groupless (WordB w) = True"

text \<open>A string that \<open>strip\<close> leaves as it is.\<close>

definition stripped :: "pystr \<Rightarrow> bool" where
  "stripped s \<longleftrightarrow> s = [] \<or> (\<not> isspace (hd s) \<and> \<not> isspace (last s))"

text \<open>
  The request's text field is blank: the member \<open>text\<close> of the request object is
  missing, is not a string, or is a string of whitespace only.
\<close>

definition blank_text_field :: "(pystr \<times> json) list \<Rightarrow> bool" where
  "blank_text_field kvs \<longleftrightarrow>
     (case dict_get kvs (str ''text'') (JStr []) of JStr t \<Rightarrow> str_strip t = [] | _ \<Rightarrow> True)"

section \<open>Concrete inputs\<close>

text \<open>
  A runtime that leaves non-ASCII text alone and iterates a set in insertion order, and
  a collaborator that tags the first three characters of a text as a job title and
  always reports the organization \<open>Acme\<close>.
\<close>

definition R0 :: runtime where
  "R0 = \<lparr>uc_lower = (\<lambda>s. s), uc_upper = (\<lambda>s. s), uc_digit = (\<lambda>c. False),
          uc_word = (\<lambda>c. False), set_iter = (\<lambda>xs. xs)\<rparr>"

definition S1 :: spacy where
  "S1 = \<lparr>nlp = (\<lambda>t. Some \<lparr>d_ents = [\<lparr>e_text = take 3 t, e_label = str ''JOB_TITLE''\<rparr>,
                                       \<lparr>e_text = str ''Acme'', e_label = str ''ORG''\<rparr>],
                             d_tokens = []\<rparr>),
          EXPERIENCE_MATCHER = (\<lambda>d. [])\<rparr>"

text \<open>
  Two more runtimes. \<open>R1\<close> has the upper case of the Unicode database for U+017F
  (the long s, code point 383), which is the letter S; the lower case of the long s
  is the long s itself. \<open>R_asc\<close> and \<open>R_desc\<close> iterate a set in ascending and in
  descending order of its elements.
\<close>

definition R1 :: runtime where
  "R1 = R0\<lparr>uc_upper := (\<lambda>s. concat (map (\<lambda>c. if c = 383 then [83] else [ascii_upper c]) s))\<rparr>"

definition R_asc :: runtime where
  "R_asc = R0\<lparr>set_iter := sort\<rparr>"

definition R_desc :: runtime where
  "R_desc = R0\<lparr>set_iter := (\<lambda>xs. rev (sort xs))\<rparr>"

text \<open>
  A document whose entities are the given \<open>DATE\<close> spans; a collaborator whose \<open>nlp\<close>
  always raises; the configuration with the learned model switched off and no entity
  ruler.
\<close>

definition d_dates :: "pystr list \<Rightarrow> doc" where
  "d_dates ds = \<lparr>d_ents = map (\<lambda>t. \<lparr>e_text = t, e_label = str ''DATE''\<rparr>) ds, d_tokens = []\<rparr>"

definition S_raise :: spacy where
  "S_raise = \<lparr>nlp = (\<lambda>t. None), EXPERIENCE_MATCHER = (\<lambda>d. [])\<rparr>"

definition S_plain :: spacy where
  "S_plain = \<lparr>nlp = (\<lambda>t. Some \<lparr>d_ents = [], d_tokens = []\<rparr>), EXPERIENCE_MATCHER = (\<lambda>d. [])\<rparr>"

definition cfg_dict_only :: config where
  "cfg_dict_only = \<lparr>HYBRID_USE_ML = False, ML_AVAILABLE = False, ENTITY_RULER = False\<rparr>"

(*PROPERTIES*)
section \<open>Evaluation\<close>

lemmas rx_defs = re_search_def match_at_def re_finditer_def re_findall_def re_sub_def
  opt_def seqs_def chr_def lit_def ilit_def many1_def m_group_def at_boundary_def

lemmas chr_defs = str_def isspace_def is_digit_def is_word_def is_upper_AZ_def
  is_alpha_AZaz_def ci_match_def ci_alpha_def ascii_def ascii_lower_def ascii_upper_def
  str_lower_def str_upper_def str_strip_def is_linebreak_def splitlines_def

lemmas exp_defs = extract_experience_def Let_def block_entry_def join_block_def str_join_def
  clean_line_def bullet_def truthy_def or_empty_def is_title_def is_org_def pick_longest_def
  detect_date_range_def DATE_RANGE_REGEX_def month_year_def year4_def month_names_def
  date_start_def date_sep_def date_end_def date_texts_def
  any_value_def same_entry_def

section \<open>The matcher against what a pattern accepts\<close>

lemma star_greedy_sound:
  "star_greedy p k pre s g = Some res \<Longrightarrow>
     \<exists>u v. s = u @ v \<and> list_all p u \<and> k (rev u @ pre, v, g) = Some res"
proof (induction s arbitrary: pre)
  case Nil
  then show ?case by simp
next
  case (Cons c cs)
  show ?case
  proof (cases "p c \<and> star_greedy p k (c # pre) cs g = Some res")
    case True
    with Cons.IH [of "c # pre"] obtain u v where
      "cs = u @ v" "list_all p u" "k (rev u @ c # pre, v, g) = Some res" by blast
    with True show ?thesis
      by (intro exI [of _ "c # u"] exI [of _ v]) simp
  next
    case False
    with Cons.prems have "k (pre, c # cs, g) = Some res"
      by (auto split: if_splits option.splits)
    then show ?thesis
      by (intro exI [of _ "[]"] exI [of _ "c # cs"]) simp
  qed
qed

lemma star_lazy_sound:
  "star_lazy p k pre s g = Some res \<Longrightarrow>
     \<exists>u v. s = u @ v \<and> list_all p u \<and> k (rev u @ pre, v, g) = Some res"
proof (induction s arbitrary: pre)
  case Nil
  then show ?case by simp
next
  case (Cons c cs)
  show ?case
  proof (cases "k (pre, c # cs, g)")
    case (Some r)
    with Cons.prems have "k (pre, c # cs, g) = Some res" by simp
    then show ?thesis
      by (intro exI [of _ "[]"] exI [of _ "c # cs"]) simp
  next
    case None
    with Cons.prems have pc: "p c" and "star_lazy p k (c # pre) cs g = Some res"
      by (auto split: if_splits)
    with Cons.IH [of "c # pre"] obtain u v where
      "cs = u @ v" "list_all p u" "k (rev u @ c # pre, v, g) = Some res" by blast
    with pc show ?thesis
      by (intro exI [of _ "c # u"] exI [of _ v]) simp
  qed
qed

lemma rmatch_sound:
  "rmatch r (pre, s, g) k = Some res \<Longrightarrow>
     \<exists>u v g'. s = u @ v \<and> accepts r pre u v g g' \<and> k (rev u @ pre, v, g') = Some res"
proof (induction r arbitrary: pre s g k)
  case (Atom p)
  then obtain c cs where "s = c # cs" "p c" "k (c # pre, cs, g) = Some res"
    by (cases s) (auto split: if_splits)
  then show ?case
    by (intro exI [of _ "[c]"] exI [of _ cs] exI [of _ g]) simp
next
  case Eps
  then show ?case by simp
next
  case (Seq a b)
  from Seq.prems have "rmatch a (pre, s, g) (\<lambda>st'. rmatch b st' k) = Some res" by simp
  from Seq.IH(1) [OF this] obtain u1 v1 g1 where
    1: "s = u1 @ v1" "accepts a pre u1 v1 g g1" "rmatch b (rev u1 @ pre, v1, g1) k = Some res"
    by blast
  from Seq.IH(2) [OF 1(3)] obtain u2 v g' where
    2: "v1 = u2 @ v" "accepts b (rev u1 @ pre) u2 v g1 g'" "k (rev u2 @ rev u1 @ pre, v, g') = Some res"
    by blast
  from 1 2 show ?case
    by (intro exI [of _ "u1 @ u2"] exI [of _ v] exI [of _ g']) auto
next
  case (Alt a b)
  show ?case
  proof (cases "rmatch a (pre, s, g) k")
    case None
    with Alt.prems have "rmatch b (pre, s, g) k = Some res" by simp
    from Alt.IH(2) [OF this] show ?thesis by auto
  next
    case (Some r)
    with Alt.prems have "rmatch a (pre, s, g) k = Some res" by simp
    from Alt.IH(1) [OF this] show ?thesis by auto
  qed
next
  case (Star p)
  then show ?case using star_greedy_sound [of p k pre s g res] by auto
next
  case (LazyStar p)
  then show ?case using star_lazy_sound [of p k pre s g res] by auto
next
  case (Group n a)
  from Group.prems have
    "rmatch a (pre, s, g) (\<lambda>st'. case st' of (pre', s', g') \<Rightarrow>
        k (pre', s', (n, rev (take (length pre' - length pre) pre')) # g')) = Some res"
    by simp
  from Group.IH [OF this] obtain u v g1 where
    "s = u @ v" "accepts a pre u v g g1" "k (rev u @ pre, v, (n, u) # g1) = Some res"
    by auto
  then show ?case by auto
next
  case Bos
  then show ?case by (auto split: if_splits)
next
  case Bol
  then show ?case by (auto split: if_splits)
next
  case Eol
  then show ?case by (auto split: if_splits)
next
  case EndZ
  then show ?case by (auto split: if_splits)
next
  case (WordB w)
  then show ?case by (auto split: if_splits)
qed


lemma ex_rstate [simp]: "\<exists>a b c. (y :: rstate) = (a, b, c)"
  by (cases y) auto

lemma star_greedy_complete:
  "list_all p u \<Longrightarrow> k (rev u @ pre, v, g) = Some x \<Longrightarrow>
     \<exists>y. star_greedy p k pre (u @ v) g = Some y"
proof (induction u arbitrary: pre)
  case Nil
  show ?case
  proof (cases v)
    case Nil
    with Nil.prems show ?thesis by (cases x) auto
  next
    case (Cons c cs)
    with Nil.prems show ?thesis
      by (cases "star_greedy p k (c # pre) cs g"; cases x) auto
  qed
next
  case (Cons c u)
  from Cons.prems Cons.IH [of "c # pre"] obtain y where
    "star_greedy p k (c # pre) (u @ v) g = Some y" by auto
  with Cons.prems show ?case by simp
qed

lemma star_lazy_complete:
  "list_all p u \<Longrightarrow> k (rev u @ pre, v, g) = Some x \<Longrightarrow>
     \<exists>y. star_lazy p k pre (u @ v) g = Some y"
proof (induction u arbitrary: pre)
  case Nil
  show ?case
  proof (cases v)
    case Nil
    with Nil.prems show ?thesis by (cases x) auto
  next
    case (Cons c cs)
    with Nil.prems show ?thesis by (cases x) auto
  qed
next
  case (Cons c u)
  from Cons.prems Cons.IH [of "c # pre"] obtain y where
    "star_lazy p k (c # pre) (u @ v) g = Some y" by auto
  with Cons.prems show ?case
    by (cases "k (pre, c # u @ v, g)") auto
qed

lemma rmatch_complete:
  "accepts r pre u v g g' \<Longrightarrow> k (rev u @ pre, v, g') = Some x \<Longrightarrow>
     \<exists>y. rmatch r (pre, u @ v, g) k = Some y"
proof (induction r arbitrary: pre u v g g' k x)
  case (Seq a b)
  from Seq.prems(1) obtain u1 u2 g1 where
    u: "u = u1 @ u2" and a: "accepts a pre u1 (u2 @ v) g g1"
    and b: "accepts b (rev u1 @ pre) u2 v g1 g'" by auto
  from Seq.prems(2) u have "k (rev u2 @ rev u1 @ pre, v, g') = Some x" by simp
  with Seq.IH(2) [of "rev u1 @ pre" u2 v g1 g' k x] b obtain y where
    "rmatch b (rev u1 @ pre, u2 @ v, g1) k = Some y" by blast
  with Seq.IH(1) [of pre u1 "u2 @ v" g g1 "\<lambda>st'. rmatch b st' k" y] a u show ?case by simp
next
  case (Alt a b)
  from Alt.prems(1) consider "accepts a pre u v g g'" | "accepts b pre u v g g'" by auto
  then show ?case
  proof cases
    case 1
    with Alt.IH(1) [of pre u v g g' k x] Alt.prems(2) show ?thesis by auto
  next
    case 2
    with Alt.IH(2) [of pre u v g g' k x] Alt.prems(2) show ?thesis
      by (cases "rmatch a (pre, u @ v, g) k") auto
  qed
next
  case (Star p)
  then show ?case using star_greedy_complete [of p u k pre v g x] by simp
next
  case (LazyStar p)
  then show ?case using star_lazy_complete [of p u k pre v g x] by simp
next
  case (Group n a)
  from Group.prems obtain g1 where a: "accepts a pre u v g g1" and g': "g' = (n, u) # g1"
    by auto
  let ?k = "\<lambda>st'. case st' of (pre', s', g') \<Rightarrow>
        k (pre', s', (n, rev (take (length pre' - length pre) pre')) # g')"
  from Group.prems(2) g' have "?k (rev u @ pre, v, g1) = Some x" by simp
  with Group.IH [of pre u v g g1 ?k x] a show ?case by simp
qed auto

lemma match_at_sound:
  assumes "match_at r pre s = Some (m, s')"
  shows "\<exists>u. s = u @ s' \<and> accepts r pre u s' [] (m_groups m) \<and> m_group0 m = u
            \<and> m_start m = length pre \<and> m_end m = length pre + length u"
proof -
  from assms obtain pre' g where r: "rmatch r (pre, s, []) Some = Some (pre', s', g)"
    and m: "m = \<lparr>m_start = length pre, m_end = length pre',
                 m_group0 = rev (take (length pre' - length pre) pre'), m_groups = g\<rparr>"
    by (auto simp: match_at_def split: option.splits)
  from rmatch_sound [OF r] obtain u v g' where
    "s = u @ v" "accepts r pre u v [] g'" "(rev u @ pre, v, g') = (pre', s', g)" by auto
  with m show ?thesis by auto
qed

lemma match_at_complete:
  "accepts r pre u v [] g' \<Longrightarrow> match_at r pre (u @ v) \<noteq> None"
  using rmatch_complete [of r pre u v "[]" g' Some "(rev u @ pre, v, g')"]
  by (auto simp: match_at_def split: option.splits)

lemma search_from_None:
  "search_from r pre s = None \<longleftrightarrow> (\<forall>a b. s = a @ b \<longrightarrow> match_at r (rev a @ pre) b = None)"
proof (induction s arbitrary: pre)
  case Nil
  show ?case by simp
next
  case (Cons c cs)
  show ?case
  proof
    assume n: "search_from r pre (c # cs) = None"
    then have h: "match_at r pre (c # cs) = None" and t: "search_from r (c # pre) cs = None"
      by (auto split: option.splits)
    show "\<forall>a b. c # cs = a @ b \<longrightarrow> match_at r (rev a @ pre) b = None"
    proof (intro allI impI)
      fix a b assume ab: "c # cs = a @ b"
      show "match_at r (rev a @ pre) b = None"
      proof (cases a)
        case Nil
        with ab h show ?thesis by simp
      next
        case (Cons x a')
        with ab have "cs = a' @ b" "x = c" by auto
        with t Cons.IH [of "c # pre"] Cons show ?thesis by simp
      qed
    qed
  next
    assume a: "\<forall>a b. c # cs = a @ b \<longrightarrow> match_at r (rev a @ pre) b = None"
    then have h: "match_at r pre (c # cs) = None" by (metis append_Nil rev.simps(1))
    have "\<forall>a b. cs = a @ b \<longrightarrow> match_at r (rev a @ c # pre) b = None"
    proof (intro allI impI)
      fix a' b assume "cs = a' @ b"
      then have "c # cs = (c # a') @ b" by simp
      with a have "match_at r (rev (c # a') @ pre) b = None" by blast
      then show "match_at r (rev a' @ c # pre) b = None" by simp
    qed
    with Cons.IH [of "c # pre"] h show "search_from r pre (c # cs) = None" by simp
  qed
qed

lemma search_from_skip:
  "(\<forall>a1 a2. a = a1 @ a2 \<and> a2 \<noteq> [] \<longrightarrow> match_at r (rev a1 @ pre) (a2 @ b) = None) \<Longrightarrow>
     b \<noteq> [] \<Longrightarrow> search_from r pre (a @ b) = search_from r (rev a @ pre) b"
proof (induction a arbitrary: pre)
  case Nil
  show ?case by simp
next
  case (Cons c a)
  from Cons.prems(1) have h: "match_at r pre (c # a @ b) = None"
    by (metis append_Cons append_Nil list.distinct(1) rev.simps(1))
  have "\<forall>a1 a2. a = a1 @ a2 \<and> a2 \<noteq> [] \<longrightarrow> match_at r (rev a1 @ c # pre) (a2 @ b) = None"
  proof (intro allI impI)
    fix a1 a2 assume "a = a1 @ a2 \<and> a2 \<noteq> []"
    then have "c # a = (c # a1) @ a2 \<and> a2 \<noteq> []" by simp
    with Cons.prems(1) have "match_at r (rev (c # a1) @ pre) (a2 @ b) = None" by blast
    then show "match_at r (rev a1 @ c # pre) (a2 @ b) = None" by simp
  qed
  from Cons.IH [OF this Cons.prems(2)] h show ?case by simp
qed

lemma search_from_Some:
  "search_from r pre s = Some m \<Longrightarrow>
     \<exists>a b s'. s = a @ b \<and> match_at r (rev a @ pre) b = Some (m, s')"
proof (induction s arbitrary: pre)
  case Nil
  then show ?case by auto
next
  case (Cons c cs)
  show ?case
  proof (cases "match_at r pre (c # cs)")
    case None
    with Cons.prems have "search_from r (c # pre) cs = Some m" by simp
    from Cons.IH [OF this] obtain a b s' where
      "cs = a @ b" "match_at r (rev a @ c # pre) b = Some (m, s')" by blast
    then show ?thesis
      by (intro exI [of _ "c # a"] exI [of _ b] exI [of _ s']) simp
  next
    case (Some ms)
    with Cons.prems have "match_at r pre (c # cs) = Some (m, snd ms)"
      by (cases ms) simp
    then show ?thesis
      by (intro exI [of _ "[]"] exI [of _ "c # cs"] exI [of _ "snd ms"]) simp
  qed
qed

lemma re_search_sound:
  assumes "re_search r s = Some m"
  shows "\<exists>a u b. s = a @ u @ b \<and> accepts r (rev a) u b [] (m_groups m) \<and> m_group0 m = u
           \<and> m_start m = length a \<and> m_end m = length a + length u"
proof -
  from assms search_from_Some [of r "[]" s m] obtain a b s' where
    "s = a @ b" "match_at r (rev a) b = Some (m, s')" by (auto simp: re_search_def)
  with match_at_sound [of r "rev a" b m s'] show ?thesis by auto
qed

lemma finditer_from_Nil:
  "(\<forall>a b. s = a @ b \<longrightarrow> match_at r (rev a @ pre) b = None) \<Longrightarrow> finditer_from r 0 pre s = []"
proof (induction s arbitrary: pre)
  case Nil
  then show ?case by simp
next
  case (Cons c cs)
  from Cons.prems have h: "match_at r pre (c # cs) = None" by (metis append_Nil rev.simps(1))
  have "\<forall>a b. cs = a @ b \<longrightarrow> match_at r (rev a @ c # pre) b = None"
  proof (intro allI impI)
    fix a' b assume "cs = a' @ b"
    then have "c # cs = (c # a') @ b" by simp
    with Cons.prems have "match_at r (rev (c # a') @ pre) b = None" by blast
    then show "match_at r (rev a' @ c # pre) b = None" by simp
  qed
  from Cons.IH [OF this] h show ?case by simp
qed

lemma groupless_caps: "groupless r \<Longrightarrow> accepts r pre u v g g' \<Longrightarrow> g' = g"
proof (induction r arbitrary: pre u v g g')
  case (Seq a b)
  from Seq.prems obtain u1 u2 g1 where
    "accepts a pre u1 (u2 @ v) g g1" "accepts b (rev u1 @ pre) u2 v g1 g'" by auto
  with Seq.IH(1) [of pre u1 "u2 @ v" g g1] Seq.IH(2) [of "rev u1 @ pre" u2 v g1 g'] Seq.prems(1)
  show ?case by simp
qed auto

lemma groupless_seqs: "groupless (seqs rs) = list_all groupless rs"
  by (induction rs) (auto simp: seqs_def)

lemma groupless_alts: "rs \<noteq> [] \<Longrightarrow> groupless (alts rs) = list_all groupless rs"
  by (induction rs rule: alts.induct) auto

lemma groupless_ilit: "groupless (ilit s)"
  by (simp add: ilit_def groupless_seqs list_all_iff)

lemma groupless_lit: "groupless (lit s)"
  by (simp add: lit_def chr_def groupless_seqs list_all_iff)

lemma groupless_any: "groupless r \<Longrightarrow> accepts r pre u v g g' \<Longrightarrow> accepts r pre u v h h"
proof (induction r arbitrary: pre u v g g' h)
  case (Seq a b)
  from Seq.prems obtain u1 u2 g1 where
    u: "u = u1 @ u2" and "accepts a pre u1 (u2 @ v) g g1" "accepts b (rev u1 @ pre) u2 v g1 g'"
    by auto
  with Seq.IH(1) [of pre u1 "u2 @ v" g g1 h] Seq.IH(2) [of "rev u1 @ pre" u2 v g1 g' h] Seq.prems(1)
  have "accepts a pre u1 (u2 @ v) h h" "accepts b (rev u1 @ pre) u2 v h h" by simp_all
  with u show ?case by auto
qed auto

(*CLAIMS*)
section \<open>Deduplication of experience entries\<close>

lemma dedup_loop_any_value: "e \<in> set (dedup_loop R prev items) \<Longrightarrow> any_value e"
  by (induction items arbitrary: prev) (auto split: if_splits)

lemma dedup_loop_head:
  "dedup_loop R (Some p) items = y # ys \<Longrightarrow> \<not> same_entry R p y"
  by (induction items) (auto split: if_splits)

lemma dedup_loop_successively:
  "successively (\<lambda>a b. \<not> same_entry R a b) (dedup_loop R prev items)"
proof (induction items arbitrary: prev)
  case Nil
  show ?case by simp
next
  case (Cons item items)
  have "successively (\<lambda>a b. \<not> same_entry R a b) (item # dedup_loop R (Some item) items)"
  proof (cases "dedup_loop R (Some item) items")
    case Nil
    then show ?thesis by simp
  next
    case (Cons y ys)
    from dedup_loop_head [OF Cons] Cons.IH [of "Some item"] Cons
    show ?thesis by simp
  qed
  with Cons.IH show ?case by simp
qed

lemma extract_experience_example:
  "extract_experience R0 S1 (str ''SRE at Acme\<newline>\<newline>sre  at acme\<newline>\<newline>QAE at Acme'') =
     Inr [\<lparr>job_title = str ''SRE'', company_name = str ''Acme'', date_range = []\<rparr>,
          \<lparr>job_title = str ''QAE'', company_name = str ''Acme'', date_range = []\<rparr>]"
  by (simp add: rx_defs chr_defs exp_defs R0_def S1_def)

text \<open>
  C1. Whenever \<open>extract_experience\<close> returns a list (no call of the collaborator raised),
  every entry of the list has a non-empty job title, company name or date range, and no
  entry equals, field by field and ignoring case, the entry before it in the list.
\<close>

theorem extract_experience_retained:
  assumes "extract_experience R S experience_text = Inr es"
  shows "(\<forall>e \<in> set es. job_title e \<noteq> [] \<or> company_name e \<noteq> [] \<or> date_range e \<noteq> [])
         \<and> successively (\<lambda>prev item. \<not> same_entry R prev item) es"
proof (cases "experience_text = []")
  case True
  with assms show ?thesis by (simp add: extract_experience_def)
next
  case False
  with assms obtain results where "es = dedup_loop R None results"
    by (auto simp: extract_experience_def Let_def split: sum.splits)
  then show ?thesis
    using dedup_loop_any_value [of _ R None results] dedup_loop_successively [of R None results]
    by (auto simp: any_value_def)
qed

theorem extract_experience_retained_witness:
  "extract_experience R0 S1 (str ''SRE at Acme\<newline>\<newline>sre  at acme\<newline>\<newline>QAE at Acme'') =
     Inr [\<lparr>job_title = str ''SRE'', company_name = str ''Acme'', date_range = []\<rparr>,
          \<lparr>job_title = str ''QAE'', company_name = str ''Acme'', date_range = []\<rparr>]
   \<and> list_all any_value
        [\<lparr>job_title = str ''SRE'', company_name = str ''Acme'', date_range = []\<rparr>,
         \<lparr>job_title = str ''QAE'', company_name = str ''Acme'', date_range = []\<rparr>]
   \<and> successively (\<lambda>prev item. \<not> same_entry R0 prev item)
        [\<lparr>job_title = str ''SRE'', company_name = str ''Acme'', date_range = []\<rparr>,
         \<lparr>job_title = str ''QAE'', company_name = str ''Acme'', date_range = []\<rparr>]"
  using extract_experience_retained [OF extract_experience_example] extract_experience_example
  unfolding list_all_iff any_value_def by blast

section \<open>Canonical skill names\<close>

lemma str_strip_stripped: "stripped (str_strip s)"
  by (metis dropWhile_idem hd_dropWhile hd_rev last_appendR last_rev
    rev.simps(1) str_strip_def stripped_def takeWhile_dropWhile_id)

lemma stripped_str_strip: "stripped s \<Longrightarrow> str_strip s = s"
  by (metis dropWhile_eq_self_iff hd_rev rev.simps(1) rev_rev_ident
    str_strip_def stripped_def)

lemma ascii_str_strip: "ascii s \<Longrightarrow> ascii (str_strip s)"
  by (auto simp: ascii_def str_strip_def list_all_iff dest!: set_dropWhileD)

lemma ascii_lower_upper: "ascii_lower (ascii_upper c) = ascii_lower c"
  unfolding ascii_lower_def ascii_upper_def by (cases "97 \<le> c \<and> c \<le> 122") auto

lemma ascii_upper_upper: "ascii_upper (ascii_upper c) = ascii_upper c"
  unfolding ascii_upper_def by (cases "97 \<le> c \<and> c \<le> 122") auto

lemma isspace_ascii_upper: "isspace (ascii_upper c) = isspace c"
  by (auto simp: isspace_def ascii_upper_def)

lemma alias_values:
  "list_all (\<lambda>v. canonical_skill R v = v) (map snd SKILL_ALIASES)"
  by (simp add: SKILL_ALIASES_def canonical_skill_def chr_defs Let_def)

lemma alias_value_fixed:
  assumes "map_of SKILL_ALIASES k = Some v"
  shows "canonical_skill R v = v"
proof -
  from assms have "v \<in> set (map snd SKILL_ALIASES)"
    by (metis map_of_SomeD set_zip_rightD zip_map_fst_snd)
  with alias_values [of R] show ?thesis unfolding list_all_iff by blast
qed

lemma fixed_consts:
  "canonical_skill R (str ''Node.js'') = str ''Node.js''"
  "canonical_skill R (str ''React'') = str ''React''"
  "canonical_skill R (str ''PostgreSQL'') = str ''PostgreSQL''"
  "canonical_skill R (str ''AWS'') = str ''AWS''"
  by (simp_all add: SKILL_ALIASES_def canonical_skill_def chr_defs Let_def)

lemma upper_gcp_key:
  assumes "map ascii_upper t = str ''GCP''"
  shows "map_of SKILL_ALIASES (map ascii_lower t) = Some (str ''Google Cloud'')"
proof -
  have "map ascii_lower t = map ascii_lower (map ascii_upper t)"
    by (simp add: ascii_lower_upper)
  also have "\<dots> = str ''gcp''" by (simp add: assms) (simp add: str_def ascii_lower_def)
  finally show ?thesis by (simp add: SKILL_ALIASES_def str_def)
qed


lemma ascii_take: "ascii s \<Longrightarrow> ascii (take n s)"
  by (auto simp: ascii_def list_all_iff dest: in_set_takeD)

lemma canonical_skill_ascii:
  assumes "ascii x"
  shows "canonical_skill R x =
     (let t = str_strip x; key = map ascii_lower t in
      case map_of SKILL_ALIASES key of
        Some v \<Rightarrow> v
      | None \<Rightarrow>
          if key \<in> {str ''node'', str ''nodejs''} then str ''Node.js''
          else if key \<in> {str ''reactjs'', str ''react.js''} then str ''React''
          else if key = str ''postgres'' then str ''PostgreSQL''
          else if map ascii_upper t \<in> {str ''AWS'', str ''GCP''} then map ascii_upper t
          else if key \<in> {str ''c++'', str ''c#'', str ''.net''} then t
          else map ascii_upper (take 1 t) @ drop 1 t)"
proof -
  have "str_lower R (str_strip x) = map ascii_lower (str_strip x)"
    "str_upper R (str_strip x) = map ascii_upper (str_strip x)"
    "str_upper R (take 1 (str_strip x)) = map ascii_upper (take 1 (str_strip x))"
    using ascii_str_strip [OF assms] ascii_take [OF ascii_str_strip [OF assms], of 1]
    by (simp_all add: str_lower_def str_upper_def)
  then show ?thesis unfolding canonical_skill_def Let_def by (simp only:)
qed

lemma canonical_skill_strip: "canonical_skill R (str_strip x) = canonical_skill R x"
  by (simp add: canonical_skill_def stripped_str_strip [OF str_strip_stripped])

lemma capitalized_facts:
  assumes "ascii t" "stripped t"
  defines "y \<equiv> map ascii_upper (take 1 t) @ drop 1 t"
  shows "ascii y" "str_strip y = y" "map ascii_lower y = map ascii_lower t"
    "map ascii_upper y = map ascii_upper t" "map ascii_upper (take 1 y) @ drop 1 y = y"
proof -
  show "ascii y"
  proof (cases t)
    case Nil
    then show ?thesis by (simp add: y_def ascii_def)
  next
    case (Cons c cs)
    with assms(1) have "c < 128" "ascii cs" by (auto simp: ascii_def)
    then have "ascii_upper c < 128" by (auto simp: ascii_upper_def)
    with Cons \<open>ascii cs\<close> show ?thesis by (simp add: y_def ascii_def)
  qed
  have "stripped y"
  proof (cases t)
    case Nil
    then show ?thesis by (simp add: y_def stripped_def)
  next
    case (Cons c cs)
    with assms(2) show ?thesis
      by (cases cs) (auto simp: y_def stripped_def isspace_ascii_upper)
  qed
  then show "str_strip y = y" by (rule stripped_str_strip)
  show "map ascii_lower y = map ascii_lower t"
    by (cases t) (simp_all add: y_def ascii_lower_upper)
  show "map ascii_upper y = map ascii_upper t"
    by (cases t) (simp_all add: y_def ascii_upper_upper)
  show "map ascii_upper (take 1 y) @ drop 1 y = y"
    by (cases t) (simp_all add: y_def ascii_upper_upper)
qed


lemma canonical_skill_long_s:
  "canonical_skill R1 (383 # str ''ql server'') = str ''Sql server''"
  "canonical_skill R1 (str ''Sql server'') = str ''SQL Server''"
  by (simp_all add: canonical_skill_def R1_def R0_def chr_defs SKILL_ALIASES_def Let_def)

text \<open>
  C3, as stated, fails: \<open>canonical_skill\<close> maps the string made of the long s (U+017F)
  followed by \<open>ql server\<close> to \<open>Sql server\<close>, and that string to \<open>SQL Server\<close>.
\<close>

theorem canonical_skill_not_idempotent:
  "canonical_skill R1 (canonical_skill R1 (383 # str ''ql server''))
     \<noteq> canonical_skill R1 (383 # str ''ql server'')"
  by (simp add: canonical_skill_long_s) (simp add: str_def)

text \<open>
  C3, amended. \<open>canonical_skill\<close> returns a string for every string (the empty string
  for the empty string), and on every string of ASCII characters it is idempotent.
\<close>

lemma canonical_skill_ascii_fixed:
  assumes "ascii x"
  shows "canonical_skill R (canonical_skill R x) = canonical_skill R x"
proof -
  let ?t = "str_strip x"
  let ?key = "map ascii_lower ?t"
  let ?y = "map ascii_upper (take 1 ?t) @ drop 1 ?t"
  have t: "ascii ?t" "stripped ?t"
    using assms by (simp_all add: ascii_str_strip str_strip_stripped)
  note e = canonical_skill_ascii [OF assms, of R]
  show ?thesis
  proof (cases "map_of SKILL_ALIASES ?key")
    case (Some v)
    with e have "canonical_skill R x = v" by (simp add: Let_def)
    with alias_value_fixed [OF Some, of R] show ?thesis by simp
  next
    case None
    have gcp: "map ascii_upper ?t \<noteq> str ''GCP''"
      using upper_gcp_key [of ?t] None by auto
    consider (c1) "canonical_skill R x \<in> {str ''Node.js'', str ''React'', str ''PostgreSQL'', str ''AWS''}"
      | (c2) "canonical_skill R x = ?t"
      | (c3) "canonical_skill R x = ?y"
          "?key \<notin> {str ''node'', str ''nodejs''}" "?key \<notin> {str ''reactjs'', str ''react.js''}"
          "?key \<noteq> str ''postgres''" "map ascii_upper ?t \<notin> {str ''AWS'', str ''GCP''}"
          "?key \<notin> {str ''c++'', str ''c#'', str ''.net''}"
      using e None gcp by (auto simp: Let_def split: if_splits)
    then show ?thesis
    proof cases
      case c1
      then show ?thesis using fixed_consts [of R] by auto
    next
      case c2
      then show ?thesis by (simp add: canonical_skill_strip)
    next
      case c3
      note f = capitalized_facts [OF t]
      from canonical_skill_ascii [OF f(1), of R] f(2-5) None c3(2-6)
      have "canonical_skill R ?y = ?y" by (simp add: Let_def)
      with c3(1) show ?thesis by simp
    qed
  qed
qed


theorem canonical_skill_idempotent_ascii:
  assumes "ascii x"
  shows "canonical_skill R [] = []
         \<and> canonical_skill R (canonical_skill R x) = canonical_skill R x"
  using canonical_skill_ascii_fixed [OF assms, of R] canonical_skill_ascii [of "[]" R]
  by (simp add: Let_def SKILL_ALIASES_def chr_defs)

theorem canonical_skill_idempotent_ascii_witness:
  "ascii (str '' node '')
   \<and> canonical_skill R0 [] = []
   \<and> canonical_skill R0 (canonical_skill R0 (str '' node '')) = canonical_skill R0 (str '' node '')"
proof -
  have a: "ascii (str '' node '')" by (simp add: chr_defs)
  from canonical_skill_idempotent_ascii [OF a, of R0] a show ?thesis by blast
qed

section \<open>Merging\<close>

text \<open>
  C5. The order \<open>merge_sets\<close> gives to two elements with the same lower-case form is
  the order in which the set \<open>merged\<close> is iterated: for the one input set with the
  elements \<open>Java\<close> and \<open>java\<close> the result is \<open>Java\<close>, \<open>java\<close> in one iteration order
  and \<open>java\<close>, \<open>Java\<close> in the other.
\<close>

theorem merge_sets_order_dependent:
  "merge_sets R_asc [[str ''Java'', str ''java'']] = [str ''Java'', str ''java'']
   \<and> merge_sets R_desc [[str ''Java'', str ''java'']] = [str ''java'', str ''Java'']"
  by (simp add: merge_sets_def R_asc_def R_desc_def R0_def chr_defs set_add_def)

section \<open>Phone numbers\<close>

lemmas phone_defs = extract_phone_number_def phone_re_def mobile_re_def phone_sep_def Let_def

text \<open>
  C10. On the text \<open>2020-2021\<close>, a range of years, the primary pattern matches the
  whole text and \<open>extract_phone_number\<close> returns the non-empty string \<open>20202021\<close>,
  whatever the runtime.
\<close>

theorem extract_phone_number_year_range:
  "map_option m_group0 (re_search (phone_re R) (str ''2020-2021'')) = Some (str ''2020-2021'')
   \<and> extract_phone_number R (str ''2020-2021'') = str ''20202021''"
  by (simp add: phone_defs rx_defs chr_defs)

section \<open>Date ranges\<close>

lemma groupless_date:
  "groupless (date_start R)" "groupless date_sep" "groupless (date_end R)"
  by (simp_all add: date_start_def date_sep_def date_end_def month_year_def year4_def
      groupless_seqs groupless_alts groupless_ilit month_names_def many1_def chr_def Let_def list_all_iff)

lemma date_range_match:
  assumes "re_search (DATE_RANGE_REGEX R) text = Some m"
  shows "\<exists>a w1 p w2 b.
           text = a @ m_group m ''start'' @ w1 @ p @ w2 @ m_group m ''end'' @ b
           \<and> accepts (date_start R) (rev a) (m_group m ''start'')
                (w1 @ p @ w2 @ m_group m ''end'' @ b) [] []
           \<and> list_all isspace w1
           \<and> accepts date_sep (rev (a @ m_group m ''start'' @ w1)) p (w2 @ m_group m ''end'' @ b) [] []
           \<and> list_all isspace w2
           \<and> accepts (date_end R) (rev (a @ m_group m ''start'' @ w1 @ p @ w2))
                (m_group m ''end'') b [] []"
proof -
  from re_search_sound [OF assms] obtain a u b where
    s: "text = a @ u @ b" and acc: "accepts (DATE_RANGE_REGEX R) (rev a) u b [] (m_groups m)"
    by blast
  from acc obtain s0 w1 p w2 e g1 g2 g3 where
    u: "u = s0 @ w1 @ p @ w2 @ e"
    and a1: "accepts (date_start R) (rev a) s0 (w1 @ p @ w2 @ e @ b) [] g1"
    and w1: "list_all isspace w1"
    and a2: "accepts date_sep (rev w1 @ rev s0 @ rev a) p (w2 @ e @ b) ((''start'', s0) # g1) g2"
    and w2: "list_all isspace w2"
    and a3: "accepts (date_end R) (rev w2 @ rev p @ rev w1 @ rev s0 @ rev a) e b g2 g3"
    and g: "m_groups m = (''end'', e) # g3"
    by (auto simp: DATE_RANGE_REGEX_def seqs_def)
  from groupless_caps [OF groupless_date(1) a1] have g1: "g1 = []" .
  from groupless_caps [OF groupless_date(2) a2] have g2: "g2 = (''start'', s0) # g1" .
  from groupless_caps [OF groupless_date(3) a3] have g3: "g3 = g2" .
  from g g1 g2 g3 have gs: "m_group m ''start'' = s0" "m_group m ''end'' = e"
    by (simp_all add: m_group_def)
  note b1 = groupless_any [OF groupless_date(1) a1, of "[]"]
  note b2 = groupless_any [OF groupless_date(2) a2, of "[]"]
  note b3 = groupless_any [OF groupless_date(3) a3, of "[]"]
  from s u w1 w2 b1 b2 b3 show ?thesis unfolding gs
    apply (rule_tac x = a in exI)
    apply (rule_tac x = w1 in exI)
    apply (rule_tac x = p in exI)
    apply (rule_tac x = w2 in exI)
    apply (rule_tac x = b in exI)
    apply simp
    done
qed



text \<open>
  C2. When \<open>DATE_RANGE_REGEX\<close> matches the block, \<open>detect_date_range\<close> returns the groups
  \<open>start\<close> and \<open>end\<close> joined by \<open> - \<close>, and these are the parts of the block that the
  start pattern and the end pattern matched, with a separator between them. When it does
  not match: with two or more \<open>DATE\<close> entities the first two joined by \<open> - \<close>, with
  exactly one that one, with none the empty string.
\<close>

theorem detect_date_range_cases:
  "(\<forall>m. re_search (DATE_RANGE_REGEX R) text = Some m \<longrightarrow>
        detect_date_range R text d = m_group m ''start'' @ str '' - '' @ m_group m ''end''
        \<and> (\<exists>a w1 p w2 b.
              text = a @ m_group m ''start'' @ w1 @ p @ w2 @ m_group m ''end'' @ b
              \<and> accepts (date_start R) (rev a) (m_group m ''start'')
                   (w1 @ p @ w2 @ m_group m ''end'' @ b) [] []
              \<and> list_all isspace w1
              \<and> accepts date_sep (rev (a @ m_group m ''start'' @ w1)) p
                   (w2 @ m_group m ''end'' @ b) [] []
              \<and> list_all isspace w2
              \<and> accepts (date_end R) (rev (a @ m_group m ''start'' @ w1 @ p @ w2))
                   (m_group m ''end'') b [] []))
   \<and> (re_search (DATE_RANGE_REGEX R) text = None \<longrightarrow>
        (2 \<le> length (date_texts d) \<longrightarrow>
           detect_date_range R text d = date_texts d ! 0 @ str '' - '' @ date_texts d ! 1)
        \<and> (length (date_texts d) = 1 \<longrightarrow> detect_date_range R text d = date_texts d ! 0)
        \<and> (date_texts d = [] \<longrightarrow> detect_date_range R text d = []))"
proof (intro conjI allI impI)
  fix m assume m: "re_search (DATE_RANGE_REGEX R) text = Some m"
  then show "detect_date_range R text d = m_group m ''start'' @ str '' - '' @ m_group m ''end''"
    by (simp add: detect_date_range_def)
  from date_range_match [OF m]
  show "\<exists>a w1 p w2 b.
          text = a @ m_group m ''start'' @ w1 @ p @ w2 @ m_group m ''end'' @ b
          \<and> accepts (date_start R) (rev a) (m_group m ''start'')
               (w1 @ p @ w2 @ m_group m ''end'' @ b) [] []
          \<and> list_all isspace w1
          \<and> accepts date_sep (rev (a @ m_group m ''start'' @ w1)) p
               (w2 @ m_group m ''end'' @ b) [] []
          \<and> list_all isspace w2
          \<and> accepts (date_end R) (rev (a @ m_group m ''start'' @ w1 @ p @ w2))
               (m_group m ''end'') b [] []" .
next
  assume n: "re_search (DATE_RANGE_REGEX R) text = None" and "2 \<le> length (date_texts d)"
  then obtain d0 d1 ds where "date_texts d = d0 # d1 # ds"
    by (cases "date_texts d"; cases "tl (date_texts d)") auto
  with n show "detect_date_range R text d = date_texts d ! 0 @ str '' - '' @ date_texts d ! 1"
    by (simp add: detect_date_range_def)
next
  assume n: "re_search (DATE_RANGE_REGEX R) text = None" and "length (date_texts d) = 1"
  then obtain d0 where "date_texts d = [d0]"
    by (cases "date_texts d") auto
  with n show "detect_date_range R text d = date_texts d ! 0"
    by (simp add: detect_date_range_def)
next
  assume "re_search (DATE_RANGE_REGEX R) text = None" and "date_texts d = []"
  then show "detect_date_range R text d = []"
    by (simp add: detect_date_range_def)
qed

lemma date_range_examples:
  "re_search (DATE_RANGE_REGEX R0) (str ''SRE, Jan 2020 - Present'') =
     Some \<lparr>m_start = 5, m_end = 23, m_group0 = str ''Jan 2020 - Present'',
           m_groups = [(''end'', str ''Present''), (''start'', str ''Jan 2020'')]\<rparr>"
  "re_search (DATE_RANGE_REGEX R0) (str ''SRE'') = None"
  by (simp_all add: rx_defs chr_defs exp_defs R0_def)

lemma date_texts_examples:
  "date_texts (d_dates [str ''2019'', str ''2021'', str ''2023'']) = [str ''2019'', str ''2021'', str ''2023'']"
  "date_texts (d_dates [str ''2019'']) = [str ''2019'']"
  "date_texts (d_dates []) = []"
  by (simp_all add: date_texts_def d_dates_def)

theorem detect_date_range_cases_witness:
  "re_search (DATE_RANGE_REGEX R0) (str ''SRE, Jan 2020 - Present'') =
     Some \<lparr>m_start = 5, m_end = 23, m_group0 = str ''Jan 2020 - Present'',
           m_groups = [(''end'', str ''Present''), (''start'', str ''Jan 2020'')]\<rparr>
   \<and> detect_date_range R0 (str ''SRE, Jan 2020 - Present'') (d_dates []) = str ''Jan 2020 - Present''
   \<and> re_search (DATE_RANGE_REGEX R0) (str ''SRE'') = None
   \<and> detect_date_range R0 (str ''SRE'') (d_dates [str ''2019'', str ''2021'', str ''2023''])
        = str ''2019 - 2021''
   \<and> detect_date_range R0 (str ''SRE'') (d_dates [str ''2019'']) = str ''2019''
   \<and> detect_date_range R0 (str ''SRE'') (d_dates []) = []"
  using detect_date_range_cases [of R0 "str ''SRE, Jan 2020 - Present''" "d_dates []"]
    detect_date_range_cases [of R0 "str ''SRE''" "d_dates [str ''2019'', str ''2021'', str ''2023'']"]
    detect_date_range_cases [of R0 "str ''SRE''" "d_dates [str ''2019'']"]
    detect_date_range_cases [of R0 "str ''SRE''" "d_dates []"]
    date_range_examples
  by (simp add: date_texts_examples m_group_def) (simp add: str_def)


section \<open>Request validation\<close>

text \<open>
  C7. A request whose text field is blank is answered with the validation error, for
  every runtime, collaborator and configuration: the answer does not depend on any
  extraction component, and no extraction result is returned. (With the collaborator
  \<open>S_raise\<close>, whose \<open>nlp\<close> raises on every call, a request with the text \<open>a\<close> gets the
  500 answer, a blank one the validation error: \<open>nlp\<close> is not called before validation.)
\<close>

theorem parse_resume_rejects_blank:
  assumes "request_data body = JObj kvs" and "blank_text_field kvs"
  shows "parse_resume R S cfg body = Invalid400"
  using assms by (auto simp: parse_resume_def blank_text_field_def Let_def split: json.splits)

lemma parse_resume_nlp_raises:
  "parse_resume R S_raise cfg (Some (JObj [(str ''text'', JStr (str ''a''))])) =
     ParsingError500 CollaboratorError"
  by (simp add: parse_resume_def request_data_def dict_get_def chr_defs parse_text_def
      S_raise_def)

theorem parse_resume_rejects_blank_witness:
  "request_data (Some (JObj [(str ''text'', JStr (str '' ''))])) =
     JObj [(str ''text'', JStr (str '' ''))]
   \<and> blank_text_field [(str ''text'', JStr (str '' ''))]
   \<and> parse_resume R0 S_raise cfg_dict_only (Some (JObj [(str ''text'', JStr (str '' ''))])) =
       Invalid400
   \<and> request_data None = JObj []
   \<and> blank_text_field []
   \<and> parse_resume R0 S_raise cfg_dict_only None = Invalid400
   \<and> blank_text_field [(str ''text'', JNum 7)]
   \<and> parse_resume R0 S_raise cfg_dict_only (Some (JObj [(str ''text'', JNum 7)])) = Invalid400"
proof -
  have 1: "request_data (Some (JObj [(str ''text'', JStr (str '' ''))])) =
             JObj [(str ''text'', JStr (str '' ''))]"
    and 2: "blank_text_field [(str ''text'', JStr (str '' ''))]"
    and 3: "request_data None = JObj []"
    and 4: "blank_text_field []"
    and 5: "request_data (Some (JObj [(str ''text'', JNum 7)])) = JObj [(str ''text'', JNum 7)]"
    and 6: "blank_text_field [(str ''text'', JNum 7)]"
    by (simp_all add: request_data_def blank_text_field_def dict_get_def chr_defs)
  from parse_resume_rejects_blank [OF 1 2] parse_resume_rejects_blank [OF 3 4]
    parse_resume_rejects_blank [OF 5 6] 1 2 3 4 6
  show ?thesis by blast
qed

end
